theory Spec2Isabelle
  imports Main
begin

section \<open>Configuration and external primitives\<close>

text \<open>
  \<^verbatim>\<open>core/database.py\<close> does \<^verbatim>\<open>from core.constants import *\<close> and
  \<^verbatim>\<open>from core.hash import *\<close>; \<^verbatim>\<open>flaskapp/database/models/user.py\<close> imports
  \<^verbatim>\<open>quick_hash\<close> and \<^verbatim>\<open>password_hash\<close> from \<^verbatim>\<open>utils.hash\<close>. Those modules
  are not part of the sources at hand, so the four tunable constants and the hash primitives
  are parameters of every definition below.
\<close>

record env =
  BAN_TIME_IP :: int
  BAN_TIME_ACCOUNT :: int
  MAX_LOGIN_ATTEMPTS_IP :: int
  MAX_LOGIN_ATTEMPTS_ACCOUNT :: int
  quick_hash :: "string \<Rightarrow> string"
  password_hash :: "string \<Rightarrow> string"
  password_check :: "string \<Rightarrow> string \<Rightarrow> bool"

section \<open>The tables of \<^verbatim>\<open>core/database.py\<close>\<close>

text \<open>
  One record per table, with the columns the SQL statements name. A table is the list of
  its rows in insertion order. Python integers and the integer columns are \<open>int\<close>.
\<close>

record login_attempt =
  attempt_id :: int
  field_data :: string
  ip_id :: int
  attempt_time :: int
  success :: int

record ip_address =
  ip_row_id :: int
  ip_ban_until :: int
  ip_ban_count :: int

record account =
  acc_id :: int
  acc_password :: string
  acc_email_id :: int
  acc_username :: string
  acc_password_changed :: int
  acc_register_time :: int
  acc_last_activity :: int
  acc_credits :: int
  acc_permission :: int
  acc_activated :: int
  acc_ban_until :: int
  acc_ban_count :: int

record database =
  login_attempts :: "login_attempt list"
  ip_addresses :: "ip_address list"
  accounts :: "account list"

datatype py_error = IndexError | AttributeError

text \<open>
  \<^verbatim>\<open>self.sql(...)[0][0]\<close>: the first column of the first row of a result set, and
  Python's \<^verbatim>\<open>IndexError\<close> when the result set is empty.
\<close>

definition first_row :: "'a list \<Rightarrow> py_error + 'a" where
  "first_row rows = (case rows of [] \<Rightarrow> Inl IndexError | r # _ \<Rightarrow> Inr r)"

text \<open>
  \<^verbatim>\<open>try: v = ...[0][0]  except IndexError: v = d\<close>
\<close>

definition except_IndexError :: "py_error + 'a \<Rightarrow> 'a \<Rightarrow> 'a" where
  "except_IndexError r d = (case r of Inl _ \<Rightarrow> d | Inr v \<Rightarrow> v)"

text \<open>
  Python truthiness of an account id: \<^verbatim>\<open>None\<close> and \<^verbatim>\<open>0\<close> are false.
\<close>

definition truthy :: "int option \<Rightarrow> bool" where
  "truthy a = (case a of None \<Rightarrow> False | Some n \<Rightarrow> n \<noteq> 0)"

text \<open>
  \<^verbatim>\<open>ORDER BY attempt_time DESC\<close>, on the selected times.
\<close>

definition order_desc :: "int list \<Rightarrow> int list" where
  "order_desc ts = rev (sort ts)"

section \<open>The throttle engine\<close>

text \<open>
  Every function takes the clock reading \<open>now\<close> (\<^verbatim>\<open>UNIX_TIMESTAMP(NOW())\<close>, one
  value for the duration of a call) and the database, and returns its Python result
  together with the database after its writes. A function with several statements is given
  again further down with a reading for each of them. The \<^verbatim>\<open>print\<close> statements
  guarded by \<^verbatim>\<open>PRODUCTION_SERVER\<close> write to the console only and are left out.
\<close>

text \<open>
  \<^verbatim>\<open>UPDATE ip_addresses SET ban_until = UNIX_TIMESTAMP(NOW()) + %s,
  ban_count = ban_count + 1 WHERE id = %s\<close>
\<close>

definition ban_ip :: "int \<Rightarrow> database \<Rightarrow> int \<Rightarrow> int \<Rightarrow> int \<times> database" where
  "ban_ip now db ip len =
     (len,
      db\<lparr>ip_addresses :=
           map (\<lambda>r. if ip_row_id r = ip
                     then r\<lparr>ip_ban_until := now + len, ip_ban_count := ip_ban_count r + 1\<rparr>
                     else r)
               (ip_addresses db)\<rparr>)"

text \<open>
  \<^verbatim>\<open>if account_id: UPDATE accounts SET ban_until = UNIX_TIMESTAMP(NOW()) + %s,
  ban_count = ban_count + 1 WHERE id = %s\<close>, and \<^verbatim>\<open>return length\<close> either way.
\<close>

definition ban_account :: "int \<Rightarrow> database \<Rightarrow> int option \<Rightarrow> int \<Rightarrow> int \<times> database" where
  "ban_account now db account_id len =
     (if truthy account_id
      then (len,
            db\<lparr>accounts :=
                 map (\<lambda>r. if Some (acc_id r) = account_id
                           then r\<lparr>acc_ban_until := now + len,
                                  acc_ban_count := acc_ban_count r + 1\<rparr>
                           else r)
                     (accounts db)\<rparr>)
      else (len, db))"

text \<open>
  \<^verbatim>\<open>SELECT count(*) FROM login_attempts WHERE success >= 0 AND
  attempt_time > UNIX_TIMESTAMP(NOW()) - %s AND ip_id = %s\<close>
\<close>

definition count_ip_attempts :: "env \<Rightarrow> int \<Rightarrow> database \<Rightarrow> int \<Rightarrow> int" where
  "count_ip_attempts e now db ip =
     int (length (filter (\<lambda>r. success r \<ge> 0 \<and> attempt_time r > now - BAN_TIME_IP e
                               \<and> ip_id r = ip)
                         (login_attempts db)))"

definition failed_logins_ip :: "env \<Rightarrow> int \<Rightarrow> database \<Rightarrow> int \<Rightarrow> int \<times> database" where
  "failed_logins_ip e now db ip =
     (let attempts = count_ip_attempts e now db ip;
          remaining_attempts = MAX_LOGIN_ATTEMPTS_IP e - attempts
      in if remaining_attempts \<le> 0
         then (remaining_attempts, snd (ban_ip now db ip (BAN_TIME_IP e)))
         else (remaining_attempts, db))"

text \<open>
  The first block of \<^verbatim>\<open>failed_logins_account\<close>:
  \<^verbatim>\<open>SELECT GREATEST(ban_until, UNIX_TIMESTAMP(NOW())) - UNIX_TIMESTAMP(NOW())
  FROM accounts WHERE id = %s\<close> for a truthy account id, 0 on \<^verbatim>\<open>IndexError\<close> and
  for a falsy id.
\<close>

definition account_ban_remaining :: "int \<Rightarrow> database \<Rightarrow> int option \<Rightarrow> int" where
  "account_ban_remaining now db account_id =
     (if truthy account_id
      then except_IndexError
             (first_row (map (\<lambda>r. max (acc_ban_until r) now - now)
                             (filter (\<lambda>r. Some (acc_id r) = account_id) (accounts db))))
             0
      else 0)"

text \<open>
  \<^verbatim>\<open>SELECT attempt_time FROM login_attempts WHERE success = 1 AND field_data = %s
  ORDER BY attempt_time DESC LIMIT 1\<close>, 0 on \<^verbatim>\<open>IndexError\<close>.
\<close>

definition last_login :: "database \<Rightarrow> string \<Rightarrow> int" where
  "last_login db h =
     except_IndexError
       (first_row (order_desc (map attempt_time
                     (filter (\<lambda>r. success r = 1 \<and> field_data r = h) (login_attempts db)))))
       0"

text \<open>
  \<^verbatim>\<open>SELECT count(*) FROM login_attempts WHERE
  attempt_time > GREATEST(%s, UNIX_TIMESTAMP(NOW()) - %s) AND field_data = %s\<close>
\<close>

definition count_failed_logins :: "env \<Rightarrow> int \<Rightarrow> database \<Rightarrow> string \<Rightarrow> int" where
  "count_failed_logins e now db h =
     int (length (filter (\<lambda>r. attempt_time r > max (last_login db h) (now - BAN_TIME_ACCOUNT e)
                               \<and> field_data r = h)
                         (login_attempts db)))"

text \<open>
  \<^verbatim>\<open>SELECT UNIX_TIMESTAMP(NOW()) - attempt_time FROM login_attempts WHERE success < 1
  AND field_data = %s ORDER BY attempt_time DESC LIMIT 1 OFFSET k\<close>, 0 on
  \<^verbatim>\<open>IndexError\<close>.
\<close>

definition ban_offset :: "int \<Rightarrow> database \<Rightarrow> string \<Rightarrow> nat \<Rightarrow> int" where
  "ban_offset now db h k =
     except_IndexError
       (first_row (drop k (map (\<lambda>t. now - t)
                     (order_desc (map attempt_time
                        (filter (\<lambda>r. success r < 1 \<and> field_data r = h) (login_attempts db)))))))
       0"

definition failed_logins_account ::
  "env \<Rightarrow> int \<Rightarrow> database \<Rightarrow> int option \<Rightarrow> string \<Rightarrow> (int \<times> int) \<times> database" where
  "failed_logins_account e now db account_id fd =
     (let h = quick_hash e fd;
          ban_remaining = account_ban_remaining now db account_id
      in if ban_remaining \<noteq> 0
         then ((0, ban_remaining), db)
         else
           (let failed_logins = count_failed_logins e now db h;
                remaining_attempts = MAX_LOGIN_ATTEMPTS_ACCOUNT e - failed_logins
            in if remaining_attempts \<le> 0
               then
                 (let banned = ban_account now db account_id (BAN_TIME_ACCOUNT e)
                  in if \<not> truthy account_id
                     then ((remaining_attempts,
                            fst banned - ban_offset now db h (nat (- remaining_attempts))),
                           snd banned)
                     else ((remaining_attempts, fst banned), snd banned))
               else ((remaining_attempts, ban_remaining), db)))"

text \<open>
  \<^verbatim>\<open>INSERT INTO login_attempts (field_data, ip_id, attempt_time, success) VALUES
  (%s, %s, UNIX_TIMESTAMP(NOW()), %s)\<close>. The table is append-only, so the row id the
  insert reports is one more than the number of rows.
\<close>

definition login_attempt_record ::
  "env \<Rightarrow> int \<Rightarrow> database \<Rightarrow> string \<Rightarrow> int \<Rightarrow> int \<Rightarrow> int \<times> database" where
  "login_attempt_record e now db fd ip succ =
     (let h = quick_hash e fd;
          new_id = int (length (login_attempts db)) + 1
      in (new_id,
          db\<lparr>login_attempts := login_attempts db @
               [\<lparr>attempt_id = new_id, field_data = h, ip_id = ip,
                 attempt_time = now, success = succ\<rparr>]\<rparr>))"

section \<open>The login orchestrator\<close>

text \<open>
  Python's \<^verbatim>\<open>'{}'.format(n)\<close> for an integer: decimal digits, with a leading minus
  sign for a negative number.
\<close>

definition digit_char :: "nat \<Rightarrow> char" where
  "digit_char d = char_of (48 + d)"

fun str_nat :: "nat \<Rightarrow> string" where
  "str_nat n = (if n < 10 then [digit_char n] else str_nat (n div 10) @ [digit_char (n mod 10)])"

declare str_nat.simps [simp del]

definition str_int :: "int \<Rightarrow> string" where
  "str_int i = (if i < 0 then CHR ''-'' # str_nat (nat (- i)) else str_nat (nat i))"

text \<open>
  \<^verbatim>\<open>'' if remaining_attempts == 1 else 's'\<close>
\<close>

definition plural :: "int \<Rightarrow> string" where
  "plural n = (if n = 1 then [] else ''s'')"

definition ip_warning :: "int \<Rightarrow> string" where
  "ip_warning n =
     ''You have '' @ str_int n @ '' more login attempt'' @ plural n
       @ '' until your IP is temporarily banned.''"

definition account_warning :: "int \<Rightarrow> string" where
  "account_warning n =
     ''You have '' @ str_int n @ '' more login attempt'' @ plural n
       @ '' before this account is temporarily disabled.''"

definition ban_error :: "int \<Rightarrow> string" where
  "ban_error n = ''Your account is disabled for another '' @ str_int n @ '' seconds.''"

text \<open>
  The dictionary \<^verbatim>\<open>data['account']\<close>: empty (\<open>None\<close>), or the ten keys
  \<^verbatim>\<open>login\<close> fills in from the selected row.
\<close>

record account_data =
  d_id :: int
  d_email_id :: int
  d_username :: string
  d_pw_update :: int
  d_created :: int
  d_last_seen :: int
  d_credits :: int
  d_permission :: int
  d_activated :: int
  d_ban_until :: int

record login_result =
  res_account :: "account_data option"
  warnings :: "string list"
  errors :: "string list"
  status :: int

definition account_fields :: "account \<Rightarrow> account_data" where
  "account_fields r =
     \<lparr>d_id = acc_id r, d_email_id = acc_email_id r, d_username = acc_username r,
      d_pw_update = acc_password_changed r, d_created = acc_register_time r,
      d_last_seen = acc_last_activity r, d_credits = acc_credits r,
      d_permission = acc_permission r, d_activated = acc_activated r,
      d_ban_until = acc_ban_until r\<rparr>"

text \<open>
  \<^verbatim>\<open>login_data and password_check(password, login_data[0][0])\<close> on the rows of
  \<^verbatim>\<open>SELECT password, ... FROM accounts WHERE id = %s\<close>.
\<close>

definition credentials_ok :: "env \<Rightarrow> database \<Rightarrow> int option \<Rightarrow> string \<Rightarrow> bool" where
  "credentials_ok e db account_id password =
     (case filter (\<lambda>r. Some (acc_id r) = account_id) (accounts db) of
        [] \<Rightarrow> False
      | r # _ \<Rightarrow> password_check e password (acc_password r))"

text \<open>
  The result dictionary before the ban checks: \<^verbatim>\<open>valid\<close> is kept in \<open>status\<close>.
\<close>

definition login_check :: "env \<Rightarrow> database \<Rightarrow> int option \<Rightarrow> string \<Rightarrow> login_result" where
  "login_check e db account_id password =
     (case filter (\<lambda>r. Some (acc_id r) = account_id) (accounts db) of
        [] \<Rightarrow> \<lparr>res_account = None, warnings = [], errors = [''Incorrect login details''],
               status = 0\<rparr>
      | r # _ \<Rightarrow>
          if password_check e password (acc_password r)
          then \<lparr>res_account = Some (account_fields r), warnings = [], errors = [], status = 1\<rparr>
          else \<lparr>res_account = None, warnings = [], errors = [''Incorrect login details''],
                status = 0\<rparr>)"

definition login ::
  "env \<Rightarrow> int \<Rightarrow> database \<Rightarrow> int option \<Rightarrow> string \<Rightarrow> int option \<Rightarrow> string option
     \<Rightarrow> login_result \<times> database" where
  "login e now db account_id password ip_arg form =
     (let data = login_check e db account_id password;
          valid = status data
      in case ip_arg of
           None \<Rightarrow> (data, db)
         | Some ip \<Rightarrow>
             (case form of
                None \<Rightarrow> (data, db)
              | Some form_data \<Rightarrow>
                  (let db1 = snd (login_attempt_record e now db form_data ip valid);
                       r_ip = failed_logins_ip e now db1 ip;
                       data1 = (if fst r_ip \<le> 10
                                then data\<lparr>warnings := warnings data @ [ip_warning (fst r_ip)]\<rparr>
                                else data);
                       r_acc = failed_logins_account e now (snd r_ip) account_id form_data;
                       remaining_attempts = fst (fst r_acc);
                       ban_remaining = snd (fst r_acc)
                   in if ban_remaining > 0
                      then (data1\<lparr>errors := errors data1 @ [ban_error ban_remaining],
                                   status := - 1\<rparr>,
                            snd r_acc)
                      else if remaining_attempts \<le> 10
                      then (data1\<lparr>warnings :=
                                     warnings data1 @ [account_warning remaining_attempts]\<rparr>,
                            snd r_acc)
                      else (data1, snd r_acc))))"

section \<open>One clock reading per statement\<close>

text \<open>
  Every SQL statement reads \<^verbatim>\<open>UNIX_TIMESTAMP(NOW())\<close> for itself, so the statements
  of one call can see different seconds. A \<open>clock\<close> holds the reading of each statement
  of a \<^verbatim>\<open>login\<close> call: the \<^verbatim>\<open>INSERT\<close> of \<^verbatim>\<open>login_attempt_record\<close>, the count
  and the \<^verbatim>\<open>UPDATE\<close> of the IP check, and for the account check the ban lookup, the
  count, the \<^verbatim>\<open>UPDATE\<close> of \<^verbatim>\<open>ban_account\<close> and the pseudo-ban query with
  \<^verbatim>\<open>OFFSET\<close>, which runs after it. The functions below are \<open>failed_logins_ip\<close>,
  \<open>failed_logins_account\<close> and \<open>login\<close> with each statement given its own reading;
  the functions above are the case of a call whose statements all read the same second.
\<close>

record clock =
  t_insert :: int
  t_ip_count :: int
  t_ip_ban :: int
  t_acc_check :: int
  t_acc_count :: int
  t_acc_ban :: int
  t_acc_offset :: int

definition same_clock :: "int \<Rightarrow> clock" where
  "same_clock now =
     \<lparr>t_insert = now, t_ip_count = now, t_ip_ban = now, t_acc_check = now, t_acc_count = now,
      t_acc_ban = now, t_acc_offset = now\<rparr>"

definition failed_logins_ip_at :: "env \<Rightarrow> clock \<Rightarrow> database \<Rightarrow> int \<Rightarrow> int \<times> database" where
  "failed_logins_ip_at e c db ip =
     (let attempts = count_ip_attempts e (t_ip_count c) db ip;
          remaining_attempts = MAX_LOGIN_ATTEMPTS_IP e - attempts
      in if remaining_attempts \<le> 0
         then (remaining_attempts, snd (ban_ip (t_ip_ban c) db ip (BAN_TIME_IP e)))
         else (remaining_attempts, db))"

definition failed_logins_account_at ::
  "env \<Rightarrow> clock \<Rightarrow> database \<Rightarrow> int option \<Rightarrow> string \<Rightarrow> (int \<times> int) \<times> database" where
  "failed_logins_account_at e c db account_id fd =
     (let h = quick_hash e fd;
          ban_remaining = account_ban_remaining (t_acc_check c) db account_id
      in if ban_remaining \<noteq> 0
         then ((0, ban_remaining), db)
         else
           (let failed_logins = count_failed_logins e (t_acc_count c) db h;
                remaining_attempts = MAX_LOGIN_ATTEMPTS_ACCOUNT e - failed_logins
            in if remaining_attempts \<le> 0
               then
                 (let banned = ban_account (t_acc_ban c) db account_id (BAN_TIME_ACCOUNT e)
                  in if \<not> truthy account_id
                     then ((remaining_attempts,
                            fst banned
                              - ban_offset (t_acc_offset c) db h (nat (- remaining_attempts))),
                           snd banned)
                     else ((remaining_attempts, fst banned), snd banned))
               else ((remaining_attempts, ban_remaining), db)))"

definition login_at ::
  "env \<Rightarrow> clock \<Rightarrow> database \<Rightarrow> int option \<Rightarrow> string \<Rightarrow> int option \<Rightarrow> string option
     \<Rightarrow> login_result \<times> database" where
  "login_at e c db account_id password ip_arg form =
     (let data = login_check e db account_id password;
          valid = status data
      in case ip_arg of
           None \<Rightarrow> (data, db)
         | Some ip \<Rightarrow>
             (case form of
                None \<Rightarrow> (data, db)
              | Some form_data \<Rightarrow>
                  (let db1 = snd (login_attempt_record e (t_insert c) db form_data ip valid);
                       r_ip = failed_logins_ip_at e c db1 ip;
                       data1 = (if fst r_ip \<le> 10
                                then data\<lparr>warnings := warnings data @ [ip_warning (fst r_ip)]\<rparr>
                                else data);
                       r_acc = failed_logins_account_at e c (snd r_ip) account_id form_data;
                       remaining_attempts = fst (fst r_acc);
                       ban_remaining = snd (fst r_acc)
                   in if ban_remaining > 0
                      then (data1\<lparr>errors := errors data1 @ [ban_error ban_remaining],
                                   status := - 1\<rparr>,
                            snd r_acc)
                      else if remaining_attempts \<le> 10
                      then (data1\<lparr>warnings :=
                                     warnings data1 @ [account_warning remaining_attempts]\<rparr>,
                            snd r_acc)
                      else (data1, snd r_acc))))"

section \<open>Persistent logins (\<^verbatim>\<open>flaskapp/database/models/user.py\<close>)\<close>

text \<open>
  The \<^verbatim>\<open>User\<close> and \<^verbatim>\<open>PersistentLogin\<close> models with the columns the session
  code reads or writes; the \<^verbatim>\<open>email\<close> relationship is followed to its address. The
  time stamps set by the insert and update hooks are not read by any of it and are left out.
\<close>

record user =
  user_row_id :: int
  user_email :: string
  user_username :: string
  user_password :: string

record persistent_login =
  pl_row_id :: int
  pl_user_id :: int
  pl_identifier :: string
  pl_token :: string

record store =
  users :: "user list"
  persistent_logins :: "persistent_login list"

text \<open>
  \<^verbatim>\<open>User.identifier\<close>: \<^verbatim>\<open>quick_hash(self.password + self.email.address.encode('utf-8'))\<close>
\<close>

definition user_identifier :: "env \<Rightarrow> user \<Rightarrow> string" where
  "user_identifier e u = quick_hash e (user_password u @ user_email u)"



text \<open>
  \<^verbatim>\<open>PersistentLogin.__init__\<close>: the token is stored hashed (\<^verbatim>\<open>validate_token\<close>) and
  \<^verbatim>\<open>self.identifier = quick_hash() + user.identifier\<close>. The random value
  \<^verbatim>\<open>quick_hash()\<close> returns is the argument \<open>seed\<close>; the row id is the one the
  database assigns.
\<close>

definition PersistentLogin_init ::
  "env \<Rightarrow> string \<Rightarrow> int \<Rightarrow> user \<Rightarrow> string \<Rightarrow> persistent_login" where
  "PersistentLogin_init e seed row u token =
     \<lparr>pl_row_id = row, pl_user_id = user_row_id u,
      pl_identifier = seed @ user_identifier e u, pl_token = quick_hash e token\<rparr>"

text \<open>
  Python's slice \<^verbatim>\<open>s[i:j]\<close> for \<open>0 \<le> i \<le> j\<close>; it never raises.
\<close>

definition slice :: "nat \<Rightarrow> nat \<Rightarrow> 'a list \<Rightarrow> 'a list" where
  "slice i j xs = take (j - i) (drop i xs)"

text \<open>
  \<^verbatim>\<open>session.user\<close>: the row the foreign key \<^verbatim>\<open>user_id\<close> points to.
\<close>

definition session_user :: "store \<Rightarrow> persistent_login \<Rightarrow> user option" where
  "session_user st s = find (\<lambda>u. user_row_id u = pl_user_id s) (users st)"

text \<open>
  \<^verbatim>\<open>regenerate_token\<close>: \<^verbatim>\<open>token = generate_uuid(); self.token = token\<close>. The
  random value is the argument \<open>fresh\<close>; the assignment goes through
  \<^verbatim>\<open>validate_token\<close>, and the changed object is the row with the session's primary key.
\<close>

definition regenerate_token ::
  "env \<Rightarrow> string \<Rightarrow> store \<Rightarrow> persistent_login \<Rightarrow> (persistent_login \<times> string) \<times> store" where
  "regenerate_token e fresh st s =
     (let s' = s\<lparr>pl_token := quick_hash e fresh\<rparr>
      in ((s', fresh),
          st\<lparr>persistent_logins :=
               map (\<lambda>p. if pl_row_id p = pl_row_id s then s' else p) (persistent_logins st)\<rparr>))"

text \<open>
  \<^verbatim>\<open>PersistentLogin.query.filter(PersistentLogin.user.identifier==session.identifier)
  .delete()\<close>, the filter read row by row as it is written: a row goes when the current
  identifier of its user equals the text \<open>ident\<close>.
\<close>

definition delete_all_sessions :: "env \<Rightarrow> store \<Rightarrow> string \<Rightarrow> store" where
  "delete_all_sessions e st ident =
     st\<lparr>persistent_logins :=
          filter (\<lambda>p. \<not> (case session_user st p of
                             None \<Rightarrow> False
                           | Some u \<Rightarrow> user_identifier e u = ident))
                 (persistent_logins st)\<rparr>"

text \<open>
  \<^verbatim>\<open>get_session(cls, user, token, identifier)\<close>; the argument \<^verbatim>\<open>user\<close> is not used
  by the body. \<^verbatim>\<open>session.user.identifier\<close> on a session without a user row raises
  \<^verbatim>\<open>AttributeError\<close>.
\<close>

definition get_session ::
  "env \<Rightarrow> string \<Rightarrow> store \<Rightarrow> user option \<Rightarrow> string \<Rightarrow> string
     \<Rightarrow> py_error + ((persistent_login \<times> string) option \<times> store)" where
  "get_session e fresh st usr token ident =
     (let t = quick_hash e token
      in case filter (\<lambda>p. pl_token p = t) (persistent_logins st) of
           [] \<Rightarrow> Inr (None, st)
         | session # _ \<Rightarrow>
             (case session_user st session of
                None \<Rightarrow> Inl AttributeError
              | Some u \<Rightarrow>
                  if pl_identifier session \<noteq> ident
                  then (if slice 32 64 (pl_identifier session) = user_identifier e u
                        then Inr (None, delete_all_sessions e st (pl_identifier session))
                        else Inr (None, st))
                  else if slice 32 64 (pl_identifier session) \<noteq> user_identifier e u
                  then Inr (None, st)
                  else (let r = regenerate_token e fresh st session
                        in Inr (Some (fst r), snd r))))"

section \<open>Example data\<close>

text \<open>
  Concrete stand-ins for the absent primitives and a small database, used to evaluate the
  functions above on explicit inputs. \<open>toy_hash\<close> pads or cuts its input to 32
  characters, the length the session code slices by; the toy password hash reverses the text.
\<close>

definition toy_hash :: "string \<Rightarrow> string" where
  "toy_hash s = take 32 (s @ replicate 32 (CHR ''0''))"

definition example_env :: env where
  "example_env =
     \<lparr>BAN_TIME_IP = 60, BAN_TIME_ACCOUNT = 3600, MAX_LOGIN_ATTEMPTS_IP = 5,
      MAX_LOGIN_ATTEMPTS_ACCOUNT = 3, quick_hash = toy_hash, password_hash = rev,
      password_check = (\<lambda>p h. h = rev p)\<rparr>"

definition example_attempt :: "int \<Rightarrow> int \<Rightarrow> int \<Rightarrow> login_attempt" where
  "example_attempt n t s =
     \<lparr>attempt_id = n, field_data = toy_hash ''bob'', ip_id = 7, attempt_time = t, success = s\<rparr>"

definition example_account :: "int \<Rightarrow> account" where
  "example_account until =
     \<lparr>acc_id = 1, acc_password = rev ''secret'', acc_email_id = 1, acc_username = ''bob'',
      acc_password_changed = 900, acc_register_time = 900, acc_last_activity = 900,
      acc_credits = 0, acc_permission = 1, acc_activated = 1, acc_ban_until = until,
      acc_ban_count = 0\<rparr>"

definition example_db :: "int \<Rightarrow> login_attempt list \<Rightarrow> database" where
  "example_db until log =
     \<lparr>login_attempts = log,
      ip_addresses = [\<lparr>ip_row_id = 7, ip_ban_until = 0, ip_ban_count = 0\<rparr>],
      accounts = [example_account until]\<rparr>"

definition five_failures :: "login_attempt list" where
  "five_failures =
     [example_attempt 1 1001 0, example_attempt 2 1002 0, example_attempt 3 1003 0,
      example_attempt 4 1004 0, example_attempt 5 1005 0]"

definition success_then_failures :: "login_attempt list" where
  "success_then_failures =
     [example_attempt 1 100 1, example_attempt 2 110 0, example_attempt 3 120 0]"

definition three_failures :: "login_attempt list" where
  "three_failures =
     [example_attempt 1 1001 0, example_attempt 2 1002 0, example_attempt 3 1003 0]"

definition example_user :: user where
  "example_user =
     \<lparr>user_row_id = 1, user_email = ''bob@example.org'', user_username = ''bob'',
      user_password = rev ''secret''\<rparr>"

definition example_session :: persistent_login where
  "example_session =
     PersistentLogin_init example_env (replicate 32 (CHR ''r'')) 1 example_user ''token1''"

definition example_store :: store where
  "example_store = \<lparr>users = [example_user], persistent_logins = [example_session]\<rparr>"

definition rotated_store :: store where
  "rotated_store =
     example_store\<lparr>persistent_logins := [example_session\<lparr>pl_token := toy_hash ''token2''\<rparr>]\<rparr>"


definition ticking_clock :: clock where
  "ticking_clock = (same_clock 4600)\<lparr>t_acc_offset := 4601\<rparr>"

definition old_failures :: "login_attempt list" where
  "old_failures =
     [example_attempt 1 1001 0, example_attempt 2 1001 0, example_attempt 3 1001 0]"

section \<open>Basic facts\<close>

lemma first_row_simps [simp]:
  "first_row [] = Inl IndexError" "first_row (x # xs) = Inr x"
  by (simp_all add: first_row_def)

lemma except_IndexError_simps [simp]:
  "except_IndexError (Inl err) d = d" "except_IndexError (Inr v) d = v"
  by (simp_all add: except_IndexError_def)

lemma map_if_no_match: "\<forall>r\<in>set xs. \<not> P r \<Longrightarrow> map (\<lambda>r. if P r then f r else r) xs = xs"
  by (induction xs) auto

lemma find_Some_filter: "find P xs = Some a \<Longrightarrow> \<exists>rest. filter P xs = a # rest"
  by (induction xs) (auto split: if_splits)

lemma find_None_filter: "find P xs = None \<Longrightarrow> filter P xs = []"
  by (induction xs) (auto split: if_splits)

section \<open>The IP throttle\<close>



section \<open>The account throttle\<close>

text \<open>
  Claim C2. For an account with an active ban (\<open>ban_until > now\<close>),
  \<open>failed_logins_account\<close> returns 0 remaining attempts and \<open>ban_until - now\<close> ban
  seconds, whatever the attempt log \<open>l\<close> holds, and leaves the database as it was. For a
  null, zero or unknown account id the resolved ban window is 0.
\<close>

theorem failed_logins_account_banned:
  "(truthy account_id \<and> find (\<lambda>r. Some (acc_id r) = account_id) (accounts db) = Some a
      \<and> now < acc_ban_until a
    \<longrightarrow> failed_logins_account e now (db\<lparr>login_attempts := l\<rparr>) account_id fd
          = ((0, acc_ban_until a - now), db\<lparr>login_attempts := l\<rparr>))
   \<and> account_ban_remaining now db None = 0
   \<and> account_ban_remaining now db (Some 0) = 0
   \<and> (find (\<lambda>r. Some (acc_id r) = account_id) (accounts db) = None
        \<longrightarrow> account_ban_remaining now db account_id = 0)"
proof -
  have banned: "failed_logins_account e now (db\<lparr>login_attempts := l\<rparr>) account_id fd
          = ((0, acc_ban_until a - now), db\<lparr>login_attempts := l\<rparr>)"
    if t: "truthy account_id"
      and f: "find (\<lambda>r. Some (acc_id r) = account_id) (accounts db) = Some a"
      and b: "now < acc_ban_until a"
  proof -
    from f obtain rest where
      "filter (\<lambda>r. Some (acc_id r) = account_id) (accounts db) = a # rest"
      using find_Some_filter by fastforce
    with t b have "account_ban_remaining now (db\<lparr>login_attempts := l\<rparr>) account_id
                   = acc_ban_until a - now"
      by (simp add: account_ban_remaining_def)
    with b show ?thesis
      by (simp add: failed_logins_account_def)
  qed
  have unknown: "account_ban_remaining now db account_id = 0"
    if "find (\<lambda>r. Some (acc_id r) = account_id) (accounts db) = None"
    using find_None_filter [OF that] by (simp add: account_ban_remaining_def)
  have null: "account_ban_remaining now db None = 0" "account_ban_remaining now db (Some 0) = 0"
    by (simp_all add: account_ban_remaining_def truthy_def)
  from banned unknown null show ?thesis by blast
qed

theorem failed_logins_account_banned_witness:
  "truthy (Some 1)
   \<and> find (\<lambda>r. Some (acc_id r) = Some 1) (accounts (example_db 2000 []))
       = Some (example_account 2000)
   \<and> 1500 < acc_ban_until (example_account 2000)
   \<and> failed_logins_account example_env 1500
        ((example_db 2000 [])\<lparr>login_attempts := five_failures\<rparr>) (Some 1) ''bob''
      = ((0, 500), (example_db 2000 [])\<lparr>login_attempts := five_failures\<rparr>)
   \<and> find (\<lambda>r. Some (acc_id r) = Some 2) (accounts (example_db 2000 [])) = None
   \<and> account_ban_remaining 1500 (example_db 2000 []) (Some 2) = 0"
proof -
  have h: "truthy (Some 1)
     \<and> find (\<lambda>r. Some (acc_id r) = Some 1) (accounts (example_db 2000 []))
         = Some (example_account 2000)
     \<and> 1500 < acc_ban_until (example_account 2000)"
    by (simp add: truthy_def example_db_def example_account_def)
  have v: "acc_ban_until (example_account 2000) - 1500 = 500"
    by (simp add: example_account_def)
  have n: "find (\<lambda>r. Some (acc_id r) = Some 2) (accounts (example_db 2000 [])) = None"
    by (simp add: example_db_def example_account_def)
  from h v failed_logins_account_banned
    [of "Some 1" "example_db 2000 []" "example_account 2000" 1500 example_env five_failures
        "''bob''"]
  have a: "failed_logins_account example_env 1500
        ((example_db 2000 [])\<lparr>login_attempts := five_failures\<rparr>) (Some 1) ''bob''
      = ((0, 500), (example_db 2000 [])\<lparr>login_attempts := five_failures\<rparr>)"
    by simp
  from n failed_logins_account_banned [of "Some 2" "example_db 2000 []" _ 1500]
  have b: "account_ban_remaining 1500 (example_db 2000 []) (Some 2) = 0"
    by simp
  from h a n b show ?thesis by simp
qed

section \<open>Issuing account bans\<close>

text \<open>
  Claim C4. \<open>ban_account\<close> with a null or zero account id writes nothing and returns
  \<open>length\<close>; it returns \<open>length\<close> for every account id; and an id that no
  \<open>accounts\<close> row carries is an ordinary result as well, with the database unchanged.
\<close>

theorem ban_account_null:
  "ban_account now db None len = (len, db)
   \<and> ban_account now db (Some 0) len = (len, db)
   \<and> fst (ban_account now db account_id len) = len
   \<and> ((\<forall>r\<in>set (accounts db). Some (acc_id r) \<noteq> account_id)
        \<longrightarrow> ban_account now db account_id len = (len, db))"
  by (simp add: ban_account_def truthy_def map_if_no_match)

theorem ban_account_null_witness:
  "ban_account 1500 (example_db 0 []) (Some 2) 3600 = (3600, example_db 0 [])
   \<and> ban_account 1500 (example_db 0 []) None 3600 = (3600, example_db 0 [])
   \<and> fst (ban_account 1500 (example_db 0 []) (Some 1) 3600) = 3600"
proof -
  have h: "\<forall>r\<in>set (accounts (example_db 0 [])). Some (acc_id r) \<noteq> Some 2"
    by (simp add: example_db_def example_account_def)
  from h ban_account_null [of 1500 "example_db 0 []" 3600 "Some 2"]
    ban_account_null [of 1500 "example_db 0 []" 3600 "Some 1"]
  show ?thesis by simp
qed

section \<open>The messages of \<open>login\<close>\<close>

text \<open>
  Claim C5. In a \<open>login\<close> call with the IP and the raw login field supplied, let
  \<open>r_ip\<close> and \<open>r_acc\<close> be the results of the two throttle queries. If the account ban
  seconds are positive the status becomes -1 and the error naming the seconds is appended;
  otherwise, if the account's remaining attempts are at most 10, the account warning with that
  number is appended. Independently, if the IP's remaining attempts are at most 10, the IP
  warning with that number is appended. Both warnings say "attempt" exactly when the number
  is 1 and "attempts" otherwise.
\<close>

theorem login_messages:
  assumes "ip_arg = Some ip" and "form = Some fd"
    and "db1 = snd (login_attempt_record e now db fd ip
                      (status (login_check e db account_id password)))"
    and "r_ip = failed_logins_ip e now db1 ip"
    and "r_acc = failed_logins_account e now (snd r_ip) account_id fd"
    and "res = fst (login e now db account_id password ip_arg form)"
  shows "status res = (if 0 < snd (fst r_acc) then - 1
                       else status (login_check e db account_id password))
       \<and> errors res = errors (login_check e db account_id password)
            @ (if 0 < snd (fst r_acc)
               then [''Your account is disabled for another '' @ str_int (snd (fst r_acc))
                       @ '' seconds.'']
               else [])
       \<and> warnings res =
            (if fst r_ip \<le> 10
             then [''You have '' @ str_int (fst r_ip) @ '' more login attempt''
                     @ (if fst r_ip = 1 then [] else ''s'')
                     @ '' until your IP is temporarily banned.'']
             else [])
            @ (if \<not> 0 < snd (fst r_acc) \<and> fst (fst r_acc) \<le> 10
               then [''You have '' @ str_int (fst (fst r_acc)) @ '' more login attempt''
                       @ (if fst (fst r_acc) = 1 then [] else ''s'')
                       @ '' before this account is temporarily disabled.'']
               else [])"
proof -
  have w0: "warnings (login_check e db account_id password) = []"
    by (simp add: login_check_def split: list.splits)
  show ?thesis
    unfolding assms
    by (simp add: login_def Let_def w0 ip_warning_def account_warning_def ban_error_def
        plural_def del: append_assoc)
qed

theorem login_messages_witness:
  "warnings (fst (login example_env 1010 (example_db 0 [example_attempt 1 1001 0]) None
                    ''secret'' (Some 7) (Some ''bob'')))
     = [''You have 3 more login attempts until your IP is temporarily banned.'',
        ''You have 1 more login attempt before this account is temporarily disabled.'']
   \<and> errors (fst (login example_env 1010 (example_db 0 [example_attempt 1 1001 0]) None
                    ''secret'' (Some 7) (Some ''bob'')))
     = [''Incorrect login details'']
   \<and> status (fst (login example_env 1010 (example_db 0 [example_attempt 1 1001 0]) None
                    ''secret'' (Some 7) (Some ''bob''))) = 0"
proof -
  let ?db = "example_db 0 [example_attempt 1 1001 0]"
  let ?db1 = "snd (login_attempt_record example_env 1010 ?db ''bob'' 7 0)"
  have ip: "fst (failed_logins_ip example_env 1010 ?db1 7) = 3"
    by code_simp
  have acc: "fst (failed_logins_account example_env 1010
                    (snd (failed_logins_ip example_env 1010 ?db1 7)) None ''bob'') = (1, 0)"
    by code_simp
  have chk: "errors (login_check example_env ?db None ''secret'') = [''Incorrect login details'']"
    "status (login_check example_env ?db None ''secret'') = 0"
    by code_simp+
  have s: "str_int 3 = ''3''" "str_int 1 = ''1''"
    by code_simp+
  note t = login_messages [OF refl refl refl refl refl refl,
      of example_env 1010 ?db None "''secret''" 7 "''bob''", unfolded ip acc chk s]
  from t show ?thesis
    by (simp add: s)
qed

section \<open>Counting failures for an account\<close>

lemma first_row_rev: "xs \<noteq> [] \<Longrightarrow> first_row (rev xs) = Inr (last xs)"
  by (cases xs rule: rev_cases) simp_all

lemma sorted_le_last: "sorted xs \<Longrightarrow> x \<in> set xs \<Longrightarrow> x \<le> last xs"
  by (induction xs) auto

lemma first_row_order_desc:
  "ts \<noteq> [] \<Longrightarrow> first_row (order_desc ts) = Inr (Max (set ts))"
proof -
  assume ne: "ts \<noteq> []"
  then have ne': "sort ts \<noteq> []" by (metis length_sort length_0_conv) 
  have "last (sort ts) \<in> set (sort ts)"
    using ne' by (rule last_in_set)
  then have "last (sort ts) = Max (set (sort ts))"
    by (intro Max_eqI [symmetric]) (auto simp: sorted_le_last)
  with ne' show ?thesis
    by (simp add: order_desc_def first_row_rev)
qed

lemma last_login_none:
  "filter (\<lambda>r. success r = 1 \<and> field_data r = h) (login_attempts db) = [] \<Longrightarrow> last_login db h = 0"
  by (simp add: last_login_def order_desc_def)

lemma last_login_Max:
  "filter (\<lambda>r. success r = 1 \<and> field_data r = h) (login_attempts db) \<noteq> [] \<Longrightarrow>
   last_login db h = Max (attempt_time ` {r \<in> set (login_attempts db). success r = 1 \<and> field_data r = h})"
  by (simp add: last_login_def first_row_order_desc)

lemma last_login_ge:
  assumes "s \<in> set (login_attempts db)" "success s = 1" "field_data s = h"
  shows "attempt_time s \<le> last_login db h"
proof -
  from assms have ne: "filter (\<lambda>r. success r = 1 \<and> field_data r = h) (login_attempts db) \<noteq> []"
    by (auto simp: filter_empty_conv)
  from assms show ?thesis
    unfolding last_login_Max [OF ne] by (intro Max_ge) auto
qed

lemma last_login_insert_failure:
  "success (r :: login_attempt) \<noteq> 1 \<Longrightarrow>
   last_login (db\<lparr>login_attempts := xs @ r # ys\<rparr>) h = last_login (db\<lparr>login_attempts := xs @ ys\<rparr>) h"
  by (simp add: last_login_def)

lemma counted_not_success:
  assumes "r \<in> set (login_attempts db)" "field_data r = h"
    and "max (last_login db h) w < attempt_time r"
  shows "success r \<noteq> 1"
  using last_login_ge [OF assms(1) _ assms(2)] assms(3) by auto

lemma count_failed_logins_failures:
  assumes "\<forall>r\<in>set (login_attempts db). success r \<le> 1"
  shows "count_failed_logins e now db h =
         int (length (filter (\<lambda>r. success r < 1 \<and> field_data r = h
                                   \<and> max (last_login db h) (now - BAN_TIME_ACCOUNT e) < attempt_time r)
                             (login_attempts db)))"
proof -
  have "filter (\<lambda>r. max (last_login db h) (now - BAN_TIME_ACCOUNT e) < attempt_time r
                     \<and> field_data r = h) (login_attempts db)
      = filter (\<lambda>r. success r < 1 \<and> field_data r = h
                     \<and> max (last_login db h) (now - BAN_TIME_ACCOUNT e) < attempt_time r)
               (login_attempts db)"
  proof (rule filter_cong [OF refl])
    fix r assume r: "r \<in> set (login_attempts db)"
    with assms have le: "success r \<le> 1" by blast
    show "(max (last_login db h) (now - BAN_TIME_ACCOUNT e) < attempt_time r \<and> field_data r = h)
          = (success r < 1 \<and> field_data r = h
               \<and> max (last_login db h) (now - BAN_TIME_ACCOUNT e) < attempt_time r)"
      using counted_not_success [OF r, of h "now - BAN_TIME_ACCOUNT e"] le by auto
  qed
  then show ?thesis by (simp add: count_failed_logins_def)
qed

lemma failed_logins_account_remaining:
  "account_ban_remaining now db account_id = 0 \<Longrightarrow>
   fst (fst (failed_logins_account e now db account_id fd))
     = MAX_LOGIN_ATTEMPTS_ACCOUNT e - count_failed_logins e now db (quick_hash e fd)"
  by (simp add: failed_logins_account_def Let_def)

lemma account_ban_remaining_log [simp]:
  "account_ban_remaining now (db\<lparr>login_attempts := l\<rparr>) account_id = account_ban_remaining now db account_id"
  by (simp add: account_ban_remaining_def)

lemma count_failed_logins_insert_old:
  assumes s: "s \<in> set (xs @ ys)" "success s = 1" "field_data s = h"
    and r: "success (r :: login_attempt) < 1" "attempt_time r < attempt_time s"
  shows "count_failed_logins e now (db\<lparr>login_attempts := xs @ r # ys\<rparr>) h
       = count_failed_logins e now (db\<lparr>login_attempts := xs @ ys\<rparr>) h"
proof -
  from r have ne: "success r \<noteq> 1" by simp
  have "attempt_time s \<le> last_login (db\<lparr>login_attempts := xs @ ys\<rparr>) h"
    using s by (intro last_login_ge) simp_all
  with r have "attempt_time r \<le> last_login (db\<lparr>login_attempts := xs @ ys\<rparr>) h"
    by simp
  then show ?thesis
    by (auto simp: count_failed_logins_def last_login_insert_failure [OF ne])
qed

text \<open>
  Claim C3. For an account that is not banned and an attempt log whose \<open>success\<close>
  values are at most 1 (the log holds -1, 0 and 1 only), the remaining attempts are
  \<open>MAX_LOGIN_ATTEMPTS_ACCOUNT\<close> minus the number of rows with \<open>success < 1\<close> for
  the identifier hash whose attempt time is strictly after the later of \<open>last_login\<close>
  and \<open>now - BAN_TIME_ACCOUNT\<close>. \<open>last_login\<close> is at least the time of every
  successful attempt for the hash. In particular a failed attempt strictly older than some
  successful attempt is not counted: adding such a row anywhere in the log leaves the result
  as it is.
\<close>

theorem failed_logins_account_count:
  assumes nb: "account_ban_remaining now db account_id = 0"
    and wf: "\<forall>r\<in>set (login_attempts db). success r \<le> 1"
    and h: "h = quick_hash e fd"
  shows "fst (fst (failed_logins_account e now db account_id fd))
           = MAX_LOGIN_ATTEMPTS_ACCOUNT e
             - int (length (filter (\<lambda>r. success r < 1 \<and> field_data r = h
                                        \<and> max (last_login db h) (now - BAN_TIME_ACCOUNT e)
                                            < attempt_time r)
                                   (login_attempts db)))
       \<and> (\<forall>s\<in>set (login_attempts db). success s = 1 \<and> field_data s = h
             \<longrightarrow> attempt_time s \<le> last_login db h)
       \<and> (\<forall>xs ys (r :: login_attempt). login_attempts db = xs @ ys \<and> success r < 1
             \<and> (\<exists>s\<in>set (login_attempts db). success s = 1 \<and> field_data s = h
                    \<and> attempt_time r < attempt_time s)
             \<longrightarrow> fst (fst (failed_logins_account e now (db\<lparr>login_attempts := xs @ r # ys\<rparr>)
                              account_id fd))
                 = fst (fst (failed_logins_account e now db account_id fd)))"
proof (intro conjI)
  show "fst (fst (failed_logins_account e now db account_id fd))
           = MAX_LOGIN_ATTEMPTS_ACCOUNT e
             - int (length (filter (\<lambda>r. success r < 1 \<and> field_data r = h
                                        \<and> max (last_login db h) (now - BAN_TIME_ACCOUNT e)
                                            < attempt_time r)
                                   (login_attempts db)))"
    using failed_logins_account_remaining [OF nb] count_failed_logins_failures [OF wf]
    by (simp add: h)
  show "\<forall>s\<in>set (login_attempts db). success s = 1 \<and> field_data s = h
             \<longrightarrow> attempt_time s \<le> last_login db h"
    using last_login_ge by blast
  show "\<forall>xs ys (r :: login_attempt). login_attempts db = xs @ ys \<and> success r < 1
             \<and> (\<exists>s\<in>set (login_attempts db). success s = 1 \<and> field_data s = h
                    \<and> attempt_time r < attempt_time s)
             \<longrightarrow> fst (fst (failed_logins_account e now (db\<lparr>login_attempts := xs @ r # ys\<rparr>)
                              account_id fd))
                 = fst (fst (failed_logins_account e now db account_id fd))"
  proof (intro allI impI, elim conjE bexE)
    fix xs ys and r s :: login_attempt
    assume l: "login_attempts db = xs @ ys" and r: "success r < 1"
      and s: "s \<in> set (login_attempts db)" "success s = 1" "field_data s = h"
        "attempt_time r < attempt_time s"
    from l have db: "db\<lparr>login_attempts := xs @ ys\<rparr> = db" by (cases db) simp
    have "count_failed_logins e now (db\<lparr>login_attempts := xs @ r # ys\<rparr>) h
        = count_failed_logins e now db h"
      using count_failed_logins_insert_old [of s xs ys h r e now db] s r l db by simp
    with nb show "fst (fst (failed_logins_account e now (db\<lparr>login_attempts := xs @ r # ys\<rparr>)
                              account_id fd))
                 = fst (fst (failed_logins_account e now db account_id fd))"
      by (simp add: failed_logins_account_remaining h)
  qed
qed

theorem failed_logins_account_count_witness:
  "account_ban_remaining 130 (example_db 0 success_then_failures) (Some 1) = 0
   \<and> last_login (example_db 0 success_then_failures) (toy_hash ''bob'') = 100
   \<and> fst (fst (failed_logins_account example_env 130 (example_db 0 success_then_failures)
                  (Some 1) ''bob'')) = 1
   \<and> fst (fst (failed_logins_account example_env 130
                  ((example_db 0 success_then_failures)
                     \<lparr>login_attempts := [] @ example_attempt 4 90 0 # success_then_failures\<rparr>)
                  (Some 1) ''bob'')) = 1"
proof -
  let ?db = "example_db 0 success_then_failures"
  have nb: "account_ban_remaining 130 ?db (Some 1) = 0"
    by code_simp
  have wf: "\<forall>r\<in>set (login_attempts ?db). success r \<le> 1"
    by (simp add: example_db_def success_then_failures_def example_attempt_def)
  have h: "toy_hash ''bob'' = quick_hash example_env ''bob''"
    by (simp add: example_env_def)
  have ll: "last_login ?db (toy_hash ''bob'') = 100"
    by code_simp
  have c: "MAX_LOGIN_ATTEMPTS_ACCOUNT example_env
             - int (length (filter (\<lambda>r. success r < 1 \<and> field_data r = toy_hash ''bob''
                                        \<and> max (last_login ?db (toy_hash ''bob''))
                                              (130 - BAN_TIME_ACCOUNT example_env)
                                            < attempt_time r)
                                   (login_attempts ?db))) = 1"
    by code_simp
  have old: "login_attempts ?db = [] @ success_then_failures
             \<and> success (example_attempt 4 90 0) < 1
             \<and> (\<exists>s\<in>set (login_attempts ?db). success s = 1 \<and> field_data s = toy_hash ''bob''
                    \<and> attempt_time (example_attempt 4 90 0) < attempt_time s)"
    by (simp add: example_db_def success_then_failures_def example_attempt_def)
  note t = failed_logins_account_count [OF nb wf h]
  from t c have r1: "fst (fst (failed_logins_account example_env 130 ?db (Some 1) ''bob'')) = 1"
    by simp
  from t old have "fst (fst (failed_logins_account example_env 130
                  (?db\<lparr>login_attempts := [] @ example_attempt 4 90 0 # success_then_failures\<rparr>)
                  (Some 1) ''bob''))
       = fst (fst (failed_logins_account example_env 130 ?db (Some 1) ''bob''))"
    by blast
  with nb ll r1 show ?thesis by simp
qed

section \<open>Recording the attempt before counting\<close>

lemma same_clock_simps [simp]:
  "t_insert (same_clock now) = now" "t_ip_count (same_clock now) = now"
  "t_ip_ban (same_clock now) = now" "t_acc_check (same_clock now) = now"
  "t_acc_count (same_clock now) = now" "t_acc_ban (same_clock now) = now"
  "t_acc_offset (same_clock now) = now"
  by (simp_all add: same_clock_def)

lemma failed_logins_ip_at_same_clock:
  "failed_logins_ip_at e (same_clock now) db ip = failed_logins_ip e now db ip"
  unfolding failed_logins_ip_at_def failed_logins_ip_def same_clock_simps ..

lemma failed_logins_account_at_same_clock:
  "failed_logins_account_at e (same_clock now) db account_id fd
     = failed_logins_account e now db account_id fd"
  unfolding failed_logins_account_at_def failed_logins_account_def same_clock_simps ..

lemma login_at_same_clock:
  "login_at e (same_clock now) db account_id password ip_arg form
     = login e now db account_id password ip_arg form"
  unfolding login_at_def login_def failed_logins_ip_at_same_clock
    failed_logins_account_at_same_clock same_clock_simps ..

lemma login_attempts_failed_logins_ip_at [simp]:
  "login_attempts (snd (failed_logins_ip_at e c db ip)) = login_attempts db"
  by (simp add: failed_logins_ip_at_def ban_ip_def Let_def)

lemma last_login_cong: "login_attempts db = login_attempts db' \<Longrightarrow> last_login db h = last_login db' h"
  by (simp add: last_login_def)

lemma count_failed_logins_cong:
  "login_attempts db = login_attempts db' \<Longrightarrow>
   count_failed_logins e now db h = count_failed_logins e now db' h"
  by (simp add: count_failed_logins_def last_login_cong [of db db'])

lemma login_attempts_record:
  "login_attempts (snd (login_attempt_record e t db fd ip v)) =
     login_attempts db @
       [\<lparr>attempt_id = int (length (login_attempts db)) + 1, field_data = quick_hash e fd,
         ip_id = ip, attempt_time = t, success = v\<rparr>]"
  by (simp add: login_attempt_record_def Let_def)

lemma status_login_check:
  "status (login_check e db account_id password)
     = (if credentials_ok e db account_id password then 1 else 0)"
  by (simp add: login_check_def credentials_ok_def split: list.splits)

lemma login_at_final_db:
  "snd (login_at e c db account_id password (Some ip) (Some fd)) =
     snd (failed_logins_account_at e c
            (snd (failed_logins_ip_at e c
                    (snd (login_attempt_record e (t_insert c) db fd ip
                            (status (login_check e db account_id password)))) ip))
            account_id fd)"
  by (simp add: login_at_def Let_def)

lemma count_ip_attempts_record:
  "0 \<le> v \<Longrightarrow>
   count_ip_attempts e now (snd (login_attempt_record e t db fd ip v)) ip
     = count_ip_attempts e now db ip + (if now - BAN_TIME_IP e < t then 1 else 0)"
  by (simp add: count_ip_attempts_def login_attempts_record)

lemma last_login_record_failure:
  "v \<noteq> 1 \<Longrightarrow> last_login (snd (login_attempt_record e t db fd ip v)) h = last_login db h"
  by (simp add: last_login_def login_attempts_record)

lemma count_failed_logins_record_failure:
  assumes "v \<noteq> 1"
  shows "count_failed_logins e now (snd (login_attempt_record e t db fd ip v)) (quick_hash e fd)
         = count_failed_logins e now db (quick_hash e fd)
           + (if max (last_login db (quick_hash e fd)) (now - BAN_TIME_ACCOUNT e) < t
              then 1 else 0)"
  using assms
  by (simp add: count_failed_logins_def last_login_record_failure login_attempts_record)

lemma count_failed_logins_record_success:
  "count_failed_logins e now (snd (login_attempt_record e t db fd ip 1)) (quick_hash e fd)
     = int (length (filter (\<lambda>r. max (last_login (snd (login_attempt_record e t db fd ip 1))
                                         (quick_hash e fd))
                                    (now - BAN_TIME_ACCOUNT e) < attempt_time r
                               \<and> field_data r = quick_hash e fd)
                          (login_attempts db)))"
proof -
  let ?db1 = "snd (login_attempt_record e t db fd ip 1)"
  have "t \<le> last_login ?db1 (quick_hash e fd)"
    using last_login_ge [of "\<lparr>attempt_id = int (length (login_attempts db)) + 1,
        field_data = quick_hash e fd, ip_id = ip, attempt_time = t, success = 1\<rparr>" ?db1
        "quick_hash e fd"]
    by (simp add: login_attempts_record)
  then show ?thesis
    by (simp add: count_failed_logins_def login_attempts_record)
qed

text \<open>
  Claim C6, as the code has it. In a \<open>login\<close> call with the IP and the raw login field
  supplied, the attempt is appended to the log with \<open>success\<close> equal to the outcome of
  the credential check (1 or 0) and the clock reading of the \<^verbatim>\<open>INSERT\<close> as its time, and
  the IP query and then the account query run on the database that holds it. The IP count
  includes the new row exactly when the reading of the IP count less \<open>BAN_TIME_IP\<close> is
  below that time: always when the two statements read the same second and
  \<open>BAN_TIME_IP > 0\<close>. The account count includes it exactly when the attempt failed and
  its time is after both \<open>last_login\<close> and the reading of the account count less
  \<open>BAN_TIME_ACCOUNT\<close>: always when the two statements read the same second,
  \<open>BAN_TIME_ACCOUNT > 0\<close> and no success for the identifier is recorded at that second
  or later. A successful attempt is never part of the account count, whatever the clock
  reads: it moves \<open>last_login\<close> to at least its own time, so the rows counted are rows
  of the log before the call.
\<close>

theorem login_records_before_counting:
  assumes "ip_arg = Some ip" and "form = Some fd"
    and "valid = status (login_check e db account_id password)"
    and "db1 = snd (login_attempt_record e (t_insert c) db fd ip valid)"
    and "db2 = snd (failed_logins_ip_at e c db1 ip)"
    and "h = quick_hash e fd"
  shows "valid = (if credentials_ok e db account_id password then 1 else 0)
       \<and> login_attempts db1 = login_attempts db @
            [\<lparr>attempt_id = int (length (login_attempts db)) + 1, field_data = h, ip_id = ip,
              attempt_time = t_insert c, success = valid\<rparr>]
       \<and> snd (login_at e c db account_id password ip_arg form)
            = snd (failed_logins_account_at e c db2 account_id fd)
       \<and> count_ip_attempts e (t_ip_count c) db1 ip
            = count_ip_attempts e (t_ip_count c) db ip
              + (if t_ip_count c - BAN_TIME_IP e < t_insert c then 1 else 0)
       \<and> (t_ip_count c = t_insert c \<and> 0 < BAN_TIME_IP e \<longrightarrow>
            count_ip_attempts e (t_ip_count c) db1 ip
              = count_ip_attempts e (t_ip_count c) db ip + 1)
       \<and> (valid = 0 \<longrightarrow>
            count_failed_logins e (t_acc_count c) db2 h
              = count_failed_logins e (t_acc_count c) db h
                + (if max (last_login db h) (t_acc_count c - BAN_TIME_ACCOUNT e) < t_insert c
                   then 1 else 0))
       \<and> (valid = 0 \<and> t_acc_count c = t_insert c \<and> 0 < BAN_TIME_ACCOUNT e
            \<and> last_login db h < t_insert c \<longrightarrow>
            count_failed_logins e (t_acc_count c) db2 h
              = count_failed_logins e (t_acc_count c) db h + 1)
       \<and> (valid = 1 \<longrightarrow>
            count_failed_logins e (t_acc_count c) db2 h
              = int (length (filter (\<lambda>r. max (last_login db2 h)
                                               (t_acc_count c - BAN_TIME_ACCOUNT e)
                                            < attempt_time r \<and> field_data r = h)
                                   (login_attempts db))))"
proof -
  have v: "valid = (if credentials_ok e db account_id password then 1 else 0)"
    by (simp add: assms status_login_check)
  then have v0: "0 \<le> valid" by simp
  have l2: "login_attempts db2 = login_attempts db1"
    by (simp add: assms)
  have c2: "count_failed_logins e (t_acc_count c) db2 h
            = count_failed_logins e (t_acc_count c) db1 h"
    by (rule count_failed_logins_cong [OF l2])
  have ll2: "last_login db2 h = last_login db1 h"
    by (rule last_login_cong [OF l2])
  have a: "login_attempts db1 = login_attempts db @
            [\<lparr>attempt_id = int (length (login_attempts db)) + 1, field_data = h, ip_id = ip,
              attempt_time = t_insert c, success = valid\<rparr>]"
    by (simp add: assms(4,6) login_attempts_record)
  have b: "snd (login_at e c db account_id password ip_arg form)
            = snd (failed_logins_account_at e c db2 account_id fd)"
    by (simp add: assms login_at_final_db)
  have i: "count_ip_attempts e (t_ip_count c) db1 ip
            = count_ip_attempts e (t_ip_count c) db ip
              + (if t_ip_count c - BAN_TIME_IP e < t_insert c then 1 else 0)"
    using count_ip_attempts_record [OF v0] by (simp add: assms(4))
  then have i1: "count_ip_attempts e (t_ip_count c) db1 ip
              = count_ip_attempts e (t_ip_count c) db ip + 1"
    if "t_ip_count c = t_insert c" "0 < BAN_TIME_IP e"
    using that by simp
  have d: "count_failed_logins e (t_acc_count c) db2 h
              = count_failed_logins e (t_acc_count c) db h
                + (if max (last_login db h) (t_acc_count c - BAN_TIME_ACCOUNT e) < t_insert c
                   then 1 else 0)"
    if "valid = 0"
    using count_failed_logins_record_failure [of valid e "t_acc_count c" "t_insert c" db fd ip]
      that c2
    unfolding assms(4) assms(6) by simp
  then have d1: "count_failed_logins e (t_acc_count c) db2 h
              = count_failed_logins e (t_acc_count c) db h + 1"
    if "valid = 0" "t_acc_count c = t_insert c" "0 < BAN_TIME_ACCOUNT e"
      "last_login db h < t_insert c"
    using that by simp
  have f: "count_failed_logins e (t_acc_count c) db2 h
              = int (length (filter (\<lambda>r. max (last_login db2 h)
                                               (t_acc_count c - BAN_TIME_ACCOUNT e)
                                            < attempt_time r \<and> field_data r = h)
                                   (login_attempts db)))"
    if "valid = 1"
    using count_failed_logins_record_success [of e "t_acc_count c" "t_insert c" db fd ip]
      that c2 ll2
    unfolding assms(4) assms(6) by simp
  from v a b i i1 d d1 f show ?thesis by blast
qed

theorem login_records_before_counting_witness:
  "login_attempts (snd (login_attempt_record example_env 1010
                          (example_db 0 [example_attempt 1 1001 0]) ''bob'' 7 0))
     = [example_attempt 1 1001 0, example_attempt 2 1010 0]
   \<and> count_ip_attempts example_env 1010
        (snd (login_attempt_record example_env 1010
                (example_db 0 [example_attempt 1 1001 0]) ''bob'' 7 0)) 7 = 2
   \<and> count_failed_logins example_env 1010
        (snd (failed_logins_ip_at example_env (same_clock 1010)
                (snd (login_attempt_record example_env 1010
                        (example_db 0 [example_attempt 1 1001 0]) ''bob'' 7 0)) 7))
        (toy_hash ''bob'') = 2"
proof -
  let ?db = "example_db 0 [example_attempt 1 1001 0]"
  have v: "status (login_check example_env ?db (Some 1) ''wrong'') = 0"
    by code_simp
  have b: "0 < BAN_TIME_IP example_env" "0 < BAN_TIME_ACCOUNT example_env"
    "quick_hash example_env ''bob'' = toy_hash ''bob''"
    by (simp_all add: example_env_def)
  have l: "last_login ?db (toy_hash ''bob'') < 1010"
    by code_simp
  have c: "count_ip_attempts example_env 1010 ?db 7 = 1"
    "count_failed_logins example_env 1010 ?db (toy_hash ''bob'') = 1"
    by code_simp+
  have r: "login_attempts ?db @
            [\<lparr>attempt_id = int (length (login_attempts ?db)) + 1, field_data = toy_hash ''bob'',
              ip_id = 7, attempt_time = 1010, success = 0\<rparr>]
           = [example_attempt 1 1001 0, example_attempt 2 1010 0]"
    by (simp add: example_db_def example_attempt_def)
  note t = login_records_before_counting
      [where e = example_env and c = "same_clock 1010" and db = ?db and account_id = "Some 1"
         and password = "''wrong''" and ip = 7 and fd = "''bob''",
       OF refl refl refl refl refl refl, unfolded v b(3) same_clock_simps]
  from t b l c r show ?thesis
    by simp
qed

text \<open>
  Claim C6 as stated says the current attempt is included in the counts in every such call.
  A successful first login, all statements within one second, is recorded, but the account
  count after recording it is 0, and the account warning still offers all 3 attempts.
\<close>

theorem login_success_not_counted:
  "status (fst (login_at example_env (same_clock 1010) (example_db 0 []) (Some 1) ''secret'' (Some 7)
                  (Some ''bob''))) = 1
   \<and> login_attempts (snd (login_at example_env (same_clock 1010) (example_db 0 []) (Some 1) ''secret'' (Some 7)
                             (Some ''bob''))) = [example_attempt 1 1010 1]
   \<and> count_failed_logins example_env 1010
        (snd (login_attempt_record example_env 1010 (example_db 0 []) ''bob'' 7 1))
        (toy_hash ''bob'') = 0
   \<and> warnings (fst (login_at example_env (same_clock 1010) (example_db 0 []) (Some 1) ''secret'' (Some 7)
                      (Some ''bob'')))
      = [''You have 4 more login attempts until your IP is temporarily banned.'',
         ''You have 3 more login attempts before this account is temporarily disabled.'']"
  by code_simp

section \<open>Exhausted attempts\<close>

lemma nth_sorted_desc_filter:
  fixes xs :: "int list"
  shows "sorted_wrt (\<ge>) xs \<Longrightarrow> k < length (filter (\<lambda>t. T < t) xs) \<Longrightarrow> T < xs ! k"
proof (induction xs arbitrary: k)
  case Nil
  then show ?case by simp
next
  case (Cons x xs)
  show ?case
  proof (cases "T < x")
    case True
    with Cons show ?thesis by (cases k) auto
  next
    case False
    with Cons.prems(1) have "filter (\<lambda>t. T < t) (x # xs) = []"
      by (auto simp: filter_empty_conv)
    with Cons.prems(2) show ?thesis by simp
  qed
qed

lemma sorted_wrt_order_desc: "sorted_wrt (\<ge>) (order_desc ts)"
  by (simp add: order_desc_def sorted_wrt_rev)

lemma length_filter_order_desc: "length (filter P (order_desc ts)) = length (filter P ts)"
proof -
  have "length (filter P (order_desc ts)) = length (filter P (sort ts))"
    by (simp add: order_desc_def rev_filter [symmetric])
  also have "\<dots> = length (filter P ts)"
    by (simp add: filter_sort)
  finally show ?thesis .
qed

lemma first_row_drop: "k < length xs \<Longrightarrow> first_row (drop k xs) = Inr (xs ! k)"
  by (simp add: Cons_nth_drop_Suc [symmetric])

lemma ban_offset_bound:
  assumes wf: "\<forall>r\<in>set (login_attempts db). success r \<le> 1"
    and k: "int k < count_failed_logins e now db h"
  shows "ban_offset t db h k < BAN_TIME_ACCOUNT e + (t - now)"
proof -
  let ?T = "max (last_login db h) (now - BAN_TIME_ACCOUNT e)"
  let ?F = "map attempt_time (filter (\<lambda>r. success r < 1 \<and> field_data r = h) (login_attempts db))"
  have "count_failed_logins e now db h = int (length (filter (\<lambda>t. ?T < t) ?F))"
    by (simp add: count_failed_logins_failures [OF wf] filter_map o_def conj_commute conj_left_commute)
  with k have k': "k < length (filter (\<lambda>t. ?T < t) (order_desc ?F))"
    by (simp add: length_filter_order_desc)
  then have kl: "k < length (order_desc ?F)"
    using length_filter_le [of "\<lambda>t. ?T < t" "order_desc ?F"] by linarith
  from nth_sorted_desc_filter [OF sorted_wrt_order_desc k']
  have gt: "?T < order_desc ?F ! k" .
  from kl have "ban_offset t db h k = t - order_desc ?F ! k"
    by (simp add: ban_offset_def first_row_drop)
  with gt show ?thesis by simp
qed

lemma except_first_row_nonneg:
  "\<forall>x\<in>set xs. (0::int) \<le> x \<Longrightarrow> 0 \<le> except_IndexError (first_row xs) 0"
  by (cases xs) simp_all

lemma account_ban_remaining_nonneg: "0 \<le> account_ban_remaining now db account_id"
  by (simp add: account_ban_remaining_def except_first_row_nonneg)

lemma failed_logins_account_at_remaining:
  "account_ban_remaining (t_acc_check c) db account_id = 0 \<Longrightarrow>
   fst (fst (failed_logins_account_at e c db account_id fd))
     = MAX_LOGIN_ATTEMPTS_ACCOUNT e - count_failed_logins e (t_acc_count c) db (quick_hash e fd)"
  by (simp add: failed_logins_account_at_def Let_def)

lemma failed_logins_account_at_exhausted:
  assumes wf: "\<forall>r\<in>set (login_attempts db). success r \<le> 1"
    and mx: "1 \<le> MAX_LOGIN_ATTEMPTS_ACCOUNT e"
    and ban: "0 < BAN_TIME_ACCOUNT e"
    and clk: "truthy account_id \<or> t_acc_offset c \<le> t_acc_count c"
    and ex: "fst (fst (failed_logins_account_at e c db account_id fd)) \<le> 0"
  shows "0 < snd (fst (failed_logins_account_at e c db account_id fd))"
proof (cases "account_ban_remaining (t_acc_check c) db account_id = 0")
  case False
  with account_ban_remaining_nonneg [of "t_acc_check c" db account_id]
  show ?thesis by (simp add: failed_logins_account_at_def)
next
  case True
  let ?h = "quick_hash e fd"
  let ?rem = "MAX_LOGIN_ATTEMPTS_ACCOUNT e - count_failed_logins e (t_acc_count c) db ?h"
  from True ex have rem: "?rem \<le> 0"
    by (simp add: failed_logins_account_at_remaining)
  show ?thesis
  proof (cases "truthy account_id")
    case t: True
    with True rem ban show ?thesis
      by (simp add: failed_logins_account_at_def Let_def ban_account_def)
  next
    case f: False
    with clk have same: "t_acc_offset c \<le> t_acc_count c" by simp
    from rem mx have "int (nat (- ?rem)) < count_failed_logins e (t_acc_count c) db ?h"
      by simp
    from ban_offset_bound [OF wf this, of "t_acc_offset c"] same
    have "ban_offset (t_acc_offset c) db ?h (nat (- ?rem)) < BAN_TIME_ACCOUNT e"
      by simp
    with True rem f show ?thesis
      by (simp add: failed_logins_account_at_def Let_def ban_account_def)
  qed
qed

lemma digit_char_simps:
  "digit_char 0 = CHR ''0''" "digit_char 1 = CHR ''1''" "digit_char 2 = CHR ''2''"
  "digit_char 3 = CHR ''3''" "digit_char 4 = CHR ''4''" "digit_char 5 = CHR ''5''"
  "digit_char 6 = CHR ''6''" "digit_char 7 = CHR ''7''" "digit_char 8 = CHR ''8''"
  "digit_char 9 = CHR ''9''" "digit_char (Suc 0) = CHR ''1''"
  by (simp_all add: digit_char_def char_of_def bit_iff_odd)

lemma str_nat_digit: "n < 10 \<Longrightarrow> str_nat n = [digit_char n]"
  by (simp add: str_nat.simps)

lemma login_at_result_parts:
  "fst (login_at e c db account_id password (Some ip) (Some fd)) =
     (let data = login_check e db account_id password;
          r_ip = failed_logins_ip_at e c
                   (snd (login_attempt_record e (t_insert c) db fd ip (status data))) ip;
          r_acc = failed_logins_account_at e c (snd r_ip) account_id fd;
          w_ip = (if fst r_ip \<le> 10 then [ip_warning (fst r_ip)] else [])
      in if 0 < snd (fst r_acc)
         then data\<lparr>warnings := warnings data @ w_ip,
                   errors := errors data @ [ban_error (snd (fst r_acc))], status := - 1\<rparr>
         else if fst (fst r_acc) \<le> 10
         then data\<lparr>warnings := warnings data @ w_ip @ [account_warning (fst (fst r_acc))]\<rparr>
         else data\<lparr>warnings := warnings data @ w_ip\<rparr>)"
  by (simp add: login_at_def Let_def)

lemma warnings_login_check [simp]: "warnings (login_check e db account_id password) = []"
  by (simp add: login_check_def split: list.splits)

lemma ip_warning_negative:
  "n < 0 \<Longrightarrow> ip_warning n =
     ''You have -'' @ str_nat (nat (- n))
       @ '' more login attempts until your IP is temporarily banned.''"
  by (simp add: ip_warning_def str_int_def plural_def)

lemma success_record_wf:
  assumes "\<forall>r\<in>set (login_attempts db). success r \<le> 1"
  shows "\<forall>r\<in>set (login_attempts (snd (failed_logins_ip_at e c
            (snd (login_attempt_record e t db fd ip
                    (status (login_check e db account_id password)))) ip))). success r \<le> 1"
  using assms by (auto simp: login_attempts_record status_login_check)

text \<open>
  Claim C10, as the code has it. Neither query clamps its result: a count above the maximum
  gives a negative number of remaining attempts (for the account query, when the account is
  not already banned). \<open>login\<close> puts a negative IP value into the IP warning as it is.
  For the account, take \<open>MAX_LOGIN_ATTEMPTS_ACCOUNT \<ge> 1\<close>, \<open>BAN_TIME_ACCOUNT > 0\<close> and a
  log with \<open>success\<close> values at most 1. Then, for an account id that is not null or zero,
  and for any account id when the pseudo-ban query with \<^verbatim>\<open>OFFSET\<close> reads the clock no
  later than the count before it (the same second), remaining attempts of 0 or less come
  with positive ban seconds: \<open>login\<close> sets the status to -1 and reports the ban, it
  appends no account warning, and the only warning is the one for the IP.
\<close>

theorem negative_remaining_attempts:
  assumes "ip_arg = Some ip" and "form = Some fd"
    and "db1 = snd (login_attempt_record e (t_insert c) db fd ip
                      (status (login_check e db account_id password)))"
    and "r_ip = failed_logins_ip_at e c db1 ip"
    and "r_acc = failed_logins_account_at e c (snd r_ip) account_id fd"
    and "res = fst (login_at e c db account_id password ip_arg form)"
  shows "(MAX_LOGIN_ATTEMPTS_IP e < count_ip_attempts e (t_ip_count ca) dba ipa
            \<longrightarrow> fst (failed_logins_ip_at e ca dba ipa) < 0)
       \<and> (account_ban_remaining (t_acc_check cb) dbb acc = 0
            \<and> MAX_LOGIN_ATTEMPTS_ACCOUNT e
                < count_failed_logins e (t_acc_count cb) dbb (quick_hash e fdb)
            \<longrightarrow> fst (fst (failed_logins_account_at e cb dbb acc fdb)) < 0)
       \<and> (fst r_ip < 0 \<longrightarrow>
            (\<exists>ws. warnings res =
               (''You have -'' @ str_nat (nat (- fst r_ip))
                  @ '' more login attempts until your IP is temporarily banned.'') # ws))
       \<and> ((\<forall>r\<in>set (login_attempts db). success r \<le> 1)
            \<and> 1 \<le> MAX_LOGIN_ATTEMPTS_ACCOUNT e \<and> 0 < BAN_TIME_ACCOUNT e
            \<and> (truthy account_id \<or> t_acc_offset c \<le> t_acc_count c)
            \<and> fst (fst r_acc) \<le> 0 \<longrightarrow>
            0 < snd (fst r_acc) \<and> status res = - 1
            \<and> warnings res = (if fst r_ip \<le> 10 then [ip_warning (fst r_ip)] else []))"
proof (intro conjI impI)
  assume "MAX_LOGIN_ATTEMPTS_IP e < count_ip_attempts e (t_ip_count ca) dba ipa"
  then show "fst (failed_logins_ip_at e ca dba ipa) < 0"
    by (simp add: failed_logins_ip_at_def Let_def)
next
  assume "account_ban_remaining (t_acc_check cb) dbb acc = 0
            \<and> MAX_LOGIN_ATTEMPTS_ACCOUNT e
                < count_failed_logins e (t_acc_count cb) dbb (quick_hash e fdb)"
  then show "fst (fst (failed_logins_account_at e cb dbb acc fdb)) < 0"
    by (simp add: failed_logins_account_at_remaining)
next
  assume n: "fst r_ip < 0"
  then have "fst r_ip \<le> 10" by simp
  with n show "\<exists>ws. warnings res =
               (''You have -'' @ str_nat (nat (- fst r_ip))
                  @ '' more login attempts until your IP is temporarily banned.'') # ws"
    unfolding assms(1-6) login_at_result_parts
    by (simp add: Let_def ip_warning_negative)
next
  assume x: "(\<forall>r\<in>set (login_attempts db). success r \<le> 1)
            \<and> 1 \<le> MAX_LOGIN_ATTEMPTS_ACCOUNT e \<and> 0 < BAN_TIME_ACCOUNT e
            \<and> (truthy account_id \<or> t_acc_offset c \<le> t_acc_count c)
            \<and> fst (fst r_acc) \<le> 0"
  then have wf: "\<forall>r\<in>set (login_attempts db). success r \<le> 1"
    and mx: "1 \<le> MAX_LOGIN_ATTEMPTS_ACCOUNT e" and ban: "0 < BAN_TIME_ACCOUNT e"
    and clk: "truthy account_id \<or> t_acc_offset c \<le> t_acc_count c"
    and ex: "fst (fst r_acc) \<le> 0"
    by blast+
  have wf2: "\<forall>r\<in>set (login_attempts (snd r_ip)). success r \<le> 1"
    unfolding assms(3,4) by (rule success_record_wf [OF wf])
  from ex have "0 < snd (fst (failed_logins_account_at e c (snd r_ip) account_id fd))"
    unfolding assms(5) by (rule failed_logins_account_at_exhausted [OF wf2 mx ban clk])
  then have b: "0 < snd (fst r_acc)" by (simp add: assms(5))
  then show "0 < snd (fst r_acc)" .
  from b show "status res = - 1"
    unfolding assms(1-6) login_at_result_parts by (simp add: Let_def)
  from b show "warnings res = (if fst r_ip \<le> 10 then [ip_warning (fst r_ip)] else [])"
    unfolding assms(1-6) login_at_result_parts by (simp add: Let_def)
qed

theorem negative_remaining_attempts_witness:
  "fst (failed_logins_ip_at example_env (same_clock 1010)
          (snd (login_attempt_record example_env 1010 (example_db 0 five_failures) ''bob'' 7 0))
          7) = - 1
   \<and> fst (fst (failed_logins_account_at example_env (same_clock 1010)
               (snd (failed_logins_ip_at example_env (same_clock 1010)
                       (snd (login_attempt_record example_env 1010 (example_db 0 five_failures)
                               ''bob'' 7 0)) 7))
               None ''bob'')) = - 3
   \<and> status (fst (login_at example_env (same_clock 1010) (example_db 0 five_failures) None
                    ''wrong'' (Some 7) (Some ''bob''))) = - 1
   \<and> warnings (fst (login_at example_env (same_clock 1010) (example_db 0 five_failures) None
                      ''wrong'' (Some 7) (Some ''bob'')))
      = [''You have -1 more login attempts until your IP is temporarily banned.'']"
proof -
  let ?db = "example_db 0 five_failures"
  let ?c = "same_clock 1010"
  let ?db1 = "snd (login_attempt_record example_env 1010 ?db ''bob'' 7 0)"
  have hyp: "(\<forall>r\<in>set (login_attempts ?db). success r \<le> 1)
     \<and> 1 \<le> MAX_LOGIN_ATTEMPTS_ACCOUNT example_env \<and> 0 < BAN_TIME_ACCOUNT example_env
     \<and> (truthy None \<or> t_acc_offset ?c \<le> t_acc_count ?c)"
    by (simp add: example_db_def five_failures_def example_attempt_def example_env_def)
  have v: "status (login_check example_env ?db None ''wrong'') = 0"
    by code_simp
  have ip: "fst (failed_logins_ip_at example_env ?c ?db1 7) = - 1"
    by code_simp
  have acc: "fst (fst (failed_logins_account_at example_env ?c
                         (snd (failed_logins_ip_at example_env ?c ?db1 7)) None ''bob'')) = - 3"
    by code_simp
  note t = negative_remaining_attempts
      [where e = example_env and c = ?c and db = ?db and account_id = None
         and password = "''wrong''" and ip = 7 and fd = "''bob''"
         and dba = ?db and ipa = 7 and ca = ?c and dbb = ?db and acc = None
         and fdb = "''bob''" and cb = ?c,
       OF refl refl refl refl refl refl, unfolded v same_clock_simps]
  from t hyp ip acc show ?thesis
    by (simp add: ip_warning_def str_int_def str_nat_digit digit_char_simps plural_def)
qed

text \<open>
  Claim C10 as stated has \<open>login\<close> embed the negative account value in the account
  warning. With three failures on record a fourth one leaves -1 attempts for the account;
  \<open>login\<close> reports the ban of 3600 seconds and the only warning is the one for the IP.
\<close>

theorem exhausted_account_gets_no_warning:
  "fst (fst (failed_logins_account_at example_env (same_clock 1010)
               (snd (failed_logins_ip_at example_env (same_clock 1010)
                       (snd (login_attempt_record example_env 1010 (example_db 0 three_failures)
                               ''bob'' 7 0)) 7))
               (Some 1) ''bob'')) = - 1
   \<and> warnings (fst (login_at example_env (same_clock 1010) (example_db 0 three_failures)
                      (Some 1) ''wrong'' (Some 7) (Some ''bob'')))
      = [''You have 1 more login attempt until your IP is temporarily banned.'']
   \<and> errors (fst (login_at example_env (same_clock 1010) (example_db 0 three_failures)
                    (Some 1) ''wrong'' (Some 7) (Some ''bob'')))
      = [''Incorrect login details'', ''Your account is disabled for another 3600 seconds.'']"
proof -
  let ?db = "example_db 0 three_failures"
  let ?c = "same_clock 1010"
  let ?db1 = "snd (login_attempt_record example_env 1010 ?db ''bob'' 7 0)"
  have chk: "login_check example_env ?db (Some 1) ''wrong''
             = \<lparr>res_account = None, warnings = [], errors = [''Incorrect login details''],
                status = 0\<rparr>"
    by code_simp
  have ip: "fst (failed_logins_ip_at example_env ?c ?db1 7) = 1"
    by code_simp
  have acc: "fst (failed_logins_account_at example_env ?c
                    (snd (failed_logins_ip_at example_env ?c ?db1 7)) (Some 1) ''bob'')
             = (- 1, 3600)"
    by code_simp
  have a1: "fst (fst (failed_logins_account_at example_env ?c
               (snd (failed_logins_ip_at example_env ?c
                       (snd (login_attempt_record example_env 1010 ?db ''bob'' 7 0)) 7))
               (Some 1) ''bob'')) = - 1"
    using acc by simp
  have a2: "fst (login_at example_env ?c ?db (Some 1) ''wrong'' (Some 7) (Some ''bob''))
            = \<lparr>res_account = None,
               warnings = [''You have 1 more login attempt until your IP is temporarily banned.''],
               errors = [''Incorrect login details'',
                         ''Your account is disabled for another 3600 seconds.''],
               status = - 1\<rparr>"
    unfolding login_at_result_parts chk
    by (simp add: Let_def ip acc ip_warning_def ban_error_def
        str_int_def str_nat_digit str_nat.simps [of 3600] str_nat.simps [of 360]
        str_nat.simps [of 36] digit_char_simps plural_def)
  from a1 a2 show ?thesis by simp
qed

lemma ticking_clock_simps [simp]:
  "t_insert ticking_clock = 4600" "t_ip_count ticking_clock = 4600"
  "t_ip_ban ticking_clock = 4600" "t_acc_check ticking_clock = 4600"
  "t_acc_count ticking_clock = 4600" "t_acc_ban ticking_clock = 4600"
  "t_acc_offset ticking_clock = 4601"
  by (simp_all add: ticking_clock_def same_clock_def)

text \<open>
  The same-second condition is needed for an unknown account. With three failures at 1001,
  a fourth one at 4600 and the pseudo-ban query reading the clock one second after the
  count, the ban seconds come out as 0 and \<open>login\<close> appends the account warning with the
  negative number; with both statements in the same second they are 1.
\<close>

lemma login_at_tick_account_warning:
  "fst (failed_logins_account_at example_env ticking_clock
          (snd (login_attempt_record example_env 4600 (example_db 0 old_failures) ''bob'' 7 0))
          None ''bob'') = (- 1, 0)
   \<and> fst (failed_logins_account_at example_env (same_clock 4600)
          (snd (login_attempt_record example_env 4600 (example_db 0 old_failures) ''bob'' 7 0))
          None ''bob'') = (- 1, 1)
   \<and> warnings (fst (login_at example_env ticking_clock (example_db 0 old_failures) None
                      ''wrong'' (Some 7) (Some ''bob'')))
      = [''You have 4 more login attempts until your IP is temporarily banned.'',
         ''You have -1 more login attempts before this account is temporarily disabled.'']"
proof -
  let ?db = "example_db 0 old_failures"
  let ?db1 = "snd (login_attempt_record example_env 4600 ?db ''bob'' 7 0)"
  have chk: "login_check example_env ?db None ''wrong''
             = \<lparr>res_account = None, warnings = [], errors = [''Incorrect login details''],
                status = 0\<rparr>"
    by code_simp
  have tick: "fst (failed_logins_account_at example_env ticking_clock ?db1 None ''bob'')
              = (- 1, 0)"
    by code_simp
  have same: "fst (failed_logins_account_at example_env (same_clock 4600) ?db1 None ''bob'')
              = (- 1, 1)"
    by code_simp
  have ip: "fst (failed_logins_ip_at example_env ticking_clock ?db1 7) = 4"
    by code_simp
  have acc: "fst (failed_logins_account_at example_env ticking_clock
                    (snd (failed_logins_ip_at example_env ticking_clock ?db1 7)) None ''bob'')
             = (- 1, 0)"
    by code_simp
  have w: "warnings (fst (login_at example_env ticking_clock ?db None ''wrong'' (Some 7)
                            (Some ''bob'')))
      = [''You have 4 more login attempts until your IP is temporarily banned.'',
         ''You have -1 more login attempts before this account is temporarily disabled.'']"
    unfolding login_at_result_parts chk
    by (simp add: Let_def ip acc ip_warning_def account_warning_def str_int_def str_nat_digit
        digit_char_simps plural_def)
  from tick same w show ?thesis by simp
qed

section \<open>Validating a persistent login\<close>

lemma get_session_Some:
  assumes "get_session e fresh st usr token ident = Inr (Some (s, new), st')"
  shows "\<exists>session rest.
           filter (\<lambda>p. pl_token p = quick_hash e token) (persistent_logins st) = session # rest
         \<and> new = fresh \<and> s = session\<lparr>pl_token := quick_hash e fresh\<rparr>
         \<and> persistent_logins st' =
             map (\<lambda>p. if pl_row_id p = pl_row_id session
                       then session\<lparr>pl_token := quick_hash e fresh\<rparr> else p)
                 (persistent_logins st)"
  using assms
  by (auto simp: get_session_def regenerate_token_def Let_def
      split: list.splits option.splits if_splits)

lemma distinct_map_filter_unique:
  assumes "distinct (map f xs)" and "filter (\<lambda>p. f p = t) xs = s # rest"
    and "p \<in> set xs" and "f p = t"
  shows "p = s"
proof -
  from assms(2) have "s \<in> set (filter (\<lambda>p. f p = t) xs)" by simp
  then have s: "s \<in> set xs" "f s = t" by simp_all
  from assms(1) have "inj_on f (set xs)" by (simp add: distinct_map)
  with s assms(3,4) show ?thesis by (auto dest: inj_onD)
qed

text \<open>
  Claim C7. When the hash of the supplied token matches no stored row, \<open>get_session\<close>
  returns \<open>None\<close> and changes nothing. Hence, in a table whose token column holds no
  value twice (the column is unique), after a validation that succeeded and so replaced the
  token by one with a different hash, validating with the old token returns \<open>None\<close>,
  whatever identifier is supplied.
\<close>

theorem get_session_unknown_token:
  "(filter (\<lambda>p. pl_token p = quick_hash e token) (persistent_logins st) = []
      \<longrightarrow> get_session e fresh st usr token ident = Inr (None, st))
   \<and> (distinct (map pl_token (persistent_logins st))
       \<and> get_session e fresh st usr token ident = Inr (Some (s, new), st')
       \<and> quick_hash e new \<noteq> quick_hash e token
      \<longrightarrow> get_session e fresh2 st' usr2 token ident2 = Inr (None, st'))"
proof (intro conjI impI)
  assume "filter (\<lambda>p. pl_token p = quick_hash e token) (persistent_logins st) = []"
  then show "get_session e fresh st usr token ident = Inr (None, st)"
    by (simp add: get_session_def)
next
  assume a: "distinct (map pl_token (persistent_logins st))
       \<and> get_session e fresh st usr token ident = Inr (Some (s, new), st')
       \<and> quick_hash e new \<noteq> quick_hash e token"
  then obtain session rest where
    f: "filter (\<lambda>p. pl_token p = quick_hash e token) (persistent_logins st) = session # rest"
    and n: "new = fresh"
    and l: "persistent_logins st' =
             map (\<lambda>p. if pl_row_id p = pl_row_id session
                       then session\<lparr>pl_token := quick_hash e fresh\<rparr> else p)
                 (persistent_logins st)"
    using get_session_Some [of e fresh st usr token ident s new st'] by blast
  have "pl_token q \<noteq> quick_hash e token" if "q \<in> set (persistent_logins st')" for q
  proof -
    from that l obtain p where p: "p \<in> set (persistent_logins st)"
      and q: "q = (if pl_row_id p = pl_row_id session
                   then session\<lparr>pl_token := quick_hash e fresh\<rparr> else p)"
      by auto
    show ?thesis
    proof (cases "pl_row_id p = pl_row_id session")
      case True
      with q a n show ?thesis by simp
    next
      case False
      then have "p \<noteq> session" by auto
      with distinct_map_filter_unique [OF _ f p] a have "pl_token p \<noteq> quick_hash e token"
        by blast
      with q False show ?thesis by simp
    qed
  qed
  then have "filter (\<lambda>p. pl_token p = quick_hash e token) (persistent_logins st') = []"
    by (simp add: filter_empty_conv)
  then show "get_session e fresh2 st' usr2 token ident2 = Inr (None, st')"
    by (simp add: get_session_def)
qed

theorem get_session_unknown_token_witness:
  "get_session example_env ''token2'' example_store None ''nope'' ''anything''
     = Inr (None, example_store)
   \<and> get_session example_env ''token2'' example_store None ''token1''
        (pl_identifier example_session)
     = Inr (Some (example_session\<lparr>pl_token := toy_hash ''token2''\<rparr>, ''token2''), rotated_store)
   \<and> get_session example_env ''token3'' rotated_store None ''token1''
        (pl_identifier example_session)
     = Inr (None, rotated_store)"
proof -
  have h: "filter (\<lambda>p. pl_token p = quick_hash example_env ''nope'')
             (persistent_logins example_store) = []"
    by code_simp
  have d: "distinct (map pl_token (persistent_logins example_store))"
    by (simp add: example_store_def)
  have g: "get_session example_env ''token2'' example_store None ''token1''
             (pl_identifier example_session)
           = Inr (Some (example_session\<lparr>pl_token := toy_hash ''token2''\<rparr>, ''token2''),
                  rotated_store)"
    by code_simp
  have ne: "quick_hash example_env ''token2'' \<noteq> quick_hash example_env ''token1''"
    by code_simp
  from h get_session_unknown_token
    [of example_env "''nope''" example_store "''token2''" None "''anything''"]
  have a: "get_session example_env ''token2'' example_store None ''nope'' ''anything''
     = Inr (None, example_store)"
    by blast
  from d g ne get_session_unknown_token
    [of example_env "''token1''" example_store "''token2''" None "pl_identifier example_session"
        "example_session\<lparr>pl_token := toy_hash ''token2''\<rparr>" "''token2''" rotated_store
        "''token3''" None "pl_identifier example_session"]
  have b: "get_session example_env ''token3'' rotated_store None ''token1''
        (pl_identifier example_session) = Inr (None, rotated_store)"
    by blast
  from a g b show ?thesis by simp
qed

section \<open>An identifier that does not match\<close>

lemma session_user_in_users: "session_user st p = Some u \<Longrightarrow> u \<in> set (users st)"
  by (auto simp: session_user_def find_Some_iff)

lemma delete_all_sessions_none:
  assumes "\<forall>u\<in>set (users st). user_identifier e u \<noteq> ident"
  shows "delete_all_sessions e st ident = st"
proof -
  have "filter (\<lambda>p. \<not> (case session_user st p of None \<Rightarrow> False
                         | Some u \<Rightarrow> user_identifier e u = ident))
               (persistent_logins st) = persistent_logins st"
    using assms by (auto simp: filter_id_conv dest: session_user_in_users split: option.splits)
  then show ?thesis by (simp add: delete_all_sessions_def)
qed

lemma slice_length_64:
  assumes "length (slice 32 64 xs) = 32"
  shows "64 \<le> length xs"
  using assms by (simp add: slice_def min_def split: if_splits)

text \<open>
  Claim C8 has the mismatch branch delete every session sharing the identifier when the
  second half of the stored identifier is the account's current identifier. What
  \<open>get_session\<close> does: its filter compares the identifier of a row's user, a hash of 32
  characters, with the stored session identifier, which is at least 64 characters long in
  that branch. No row passes, nothing is deleted, and the call returns \<open>None\<close> with
  the store as it was, in both sub-branches.
\<close>

theorem get_session_mismatch_deletes_nothing:
  assumes len: "\<forall>x. length (quick_hash e x) = 32"
    and found: "filter (\<lambda>p. pl_token p = quick_hash e token) (persistent_logins st)
                = session # rest"
    and owner: "session_user st session = Some u"
    and diff: "pl_identifier session \<noteq> ident"
  shows "get_session e fresh st usr token ident = Inr (None, st)"
proof (cases "slice 32 64 (pl_identifier session) = user_identifier e u")
  case False
  with found owner diff show ?thesis
    by (simp add: get_session_def)
next
  case True
  with len have "length (slice 32 64 (pl_identifier session)) = 32"
    by (simp add: user_identifier_def)
  then have ge: "64 \<le> length (pl_identifier session)"
    by (rule slice_length_64)
  have "user_identifier e v \<noteq> pl_identifier session" for v
  proof
    assume "user_identifier e v = pl_identifier session"
    then have "length (pl_identifier session) = length (quick_hash e (user_password v @ user_email v))"
      by (simp add: user_identifier_def)
    with len ge show False by simp
  qed
  then have "\<forall>v\<in>set (users st). user_identifier e v \<noteq> pl_identifier session"
    by blast
  then have "delete_all_sessions e st (pl_identifier session) = st"
    by (rule delete_all_sessions_none)
  with found owner diff True show ?thesis
    by (simp add: get_session_def)
qed

lemma length_toy_hash: "length (toy_hash x) = 32"
  by (simp add: toy_hash_def)

theorem get_session_mismatch_deletes_nothing_witness:
  "slice 32 64 (pl_identifier example_session) = user_identifier example_env example_user
   \<and> pl_identifier example_session \<noteq> ''stolen''
   \<and> get_session example_env ''token2'' example_store None ''token1'' ''stolen''
      = Inr (None, example_store)
   \<and> persistent_logins example_store = [example_session]"
proof -
  have len: "\<forall>x. length (quick_hash example_env x) = 32"
    by (simp add: example_env_def length_toy_hash)
  have found: "filter (\<lambda>p. pl_token p = quick_hash example_env ''token1'')
                 (persistent_logins example_store) = example_session # []"
    by code_simp
  have owner: "session_user example_store example_session = Some example_user"
    by code_simp
  have half: "slice 32 64 (pl_identifier example_session)
              = user_identifier example_env example_user"
    by code_simp
  have diff: "pl_identifier example_session \<noteq> ''stolen''"
    by code_simp
  from get_session_mismatch_deletes_nothing [OF len found owner diff] half diff
  show ?thesis by (simp add: example_store_def)
qed

section \<open>Changing the password\<close>





end
